theory Spec2Isabelle
  imports Main "HOL-Library.Sublist"
begin

section \<open>Values and tree nodes\<close>

text \<open>
  The repository edits a JSON document as a tree of \<open>tview.TreeNode\<close>s. This theory embeds
  \<open>gui/gui.go\<close>: the serializer \<open>makeJSON\<close>, the scalar parser \<open>parseValue\<close>, the filter
  \<open>walk\<close> with its caller \<open>Search\<close>, the decoder wrapper \<open>UnMarshalJSON\<close> and the two graft
  callbacks \<open>AddNode\<close> and \<open>AddValue\<close>.

  Go strings are byte strings: \<open>string\<close> here. A \<open>float64\<close> is kept abstract as the type
  variable \<open>'f\<close>; the functions of package \<open>strconv\<close> on it are parameters.
\<close>

text \<open>
  Modelled from the spec: the type declarations \<open>JSONType\<close>, \<open>ValueType\<close> and \<open>Reference\<close>
  are not in \<open>gui.go\<close>. The spec gives a node a kind, one of Object, Array, Key, Value, and
  a scalar type, one of Int, Float, Boolean, Null, String, which is valid on a Value node
  only: on the other kinds the field is unset (\<open>None\<close>). \<open>Int'\<close> is the source's \<open>Int\<close>, a
  name HOL's syntax has taken.
\<close>

datatype JSONType = Object | Array | Key | Value

datatype ValueType = Int' | Float | Boolean | Null | String

record Reference =
  JSONType :: JSONType
  ValueType :: "ValueType option"

text \<open>
  A tree node as the serializer and the filter read it: its text, its reference and its
  children (\<open>GetText\<close>, \<open>GetReference\<close>, \<open>GetChildren\<close> of \<open>tview.TreeNode\<close>).
\<close>

datatype node = Node (GetText: string) (GetReference: Reference) (GetChildren: "node list")

text \<open>
  The values \<open>makeJSON\<close> returns in an \<open>interface{}\<close>: \<open>nil\<close>, a \<open>bool\<close>, an \<open>int\<close>, a
  \<open>float64\<close>, a \<open>string\<close>, a \<open>[]interface{}\<close> and a \<open>map[string]interface{}\<close>. A slice
  that was declared and never appended to is the nil slice \<open>GNilSlice\<close>, which
  \<open>reflect.DeepEqual\<close> tells from the empty slice \<open>GSlice []\<close> and which package
  \<open>encoding/json\<close> writes as \<open>null\<close>. A map is the list of its entries, one per key, in the
  order the keys were first assigned; Go maps have no order, so two lists that are equal
  denote equal maps (the converse is not claimed).
\<close>

datatype 'f goval =
    GNil
  | GBool bool
  | GInt int
  | GFloat 'f
  | GString string
  | GNilSlice
  | GSlice "'f goval list"
  | GMap "(string \<times> 'f goval) list"

text \<open>\<open>i[k] = v\<close> on a map: an existing key keeps its place and takes the new value.\<close>

fun map_assign :: "string \<Rightarrow> 'v \<Rightarrow> (string \<times> 'v) list \<Rightarrow> (string \<times> 'v) list" where
  "map_assign k v [] = [(k, v)]"
| "map_assign k v ((k', v') # m) =
     (if k' = k then (k, v) # m else (k', v') # map_assign k v m)"

text \<open>\<open>append(s, x)\<close> on a slice that may be nil (\<open>None\<close>).\<close>

definition append_slice :: "'a list option \<Rightarrow> 'a \<Rightarrow> 'a list option" where
  "append_slice s x = (case s of None \<Rightarrow> Some [x] | Some xs \<Rightarrow> Some (xs @ [x]))"

definition slice_value :: "'f goval list option \<Rightarrow> 'f goval" where
  "slice_value s = (case s of None \<Rightarrow> GNilSlice | Some xs \<Rightarrow> GSlice xs)"

text \<open>What package \<open>encoding/json\<close> writes as the JSON value \<open>null\<close>: a nil interface and a
  nil slice.\<close>

definition encodes_as_null :: "'f goval \<Rightarrow> bool" where
  "encodes_as_null v = (v = GNil \<or> v = GNilSlice)"

section \<open>Package strconv\<close>

text \<open>
  \<open>strconv.Atoi\<close>, \<open>strconv.ParseBool\<close> as the Go library defines them, for a 64-bit
  \<open>int\<close> (a \<open>uint64\<close> and an \<open>int\<close> are integers here, with each range check of the
  library written out). Each returns its value together with an error; the callers in \<open>gui.go\<close> drop the
  error and keep the value. On a syntax error \<open>Atoi\<close> returns 0; on a range error it
  returns the nearest bound of \<open>int\<close>.
\<close>

datatype NumError = ErrSyntax | ErrRange

definition is_digit :: "char \<Rightarrow> bool" where
  "is_digit c = (48 \<le> (of_char c :: int) \<and> (of_char c :: int) \<le> 57)"

definition digit_val :: "char \<Rightarrow> int" where
  "digit_val c = of_char c - 48"

definition maxUint64 :: int where
  "maxUint64 = 18446744073709551615"

fun ParseUint_loop :: "int \<Rightarrow> string \<Rightarrow> int \<times> NumError option" where
  "ParseUint_loop n [] = (n, None)"
| "ParseUint_loop n (c # cs) =
     (if \<not> is_digit c then (0, Some ErrSyntax)
      else if maxUint64 < n * 10 + digit_val c then (maxUint64, Some ErrRange)
      else ParseUint_loop (n * 10 + digit_val c) cs)"

definition ParseUint :: "string \<Rightarrow> int \<times> NumError option" where
  "ParseUint s = (if s = [] then (0, Some ErrSyntax) else ParseUint_loop 0 s)"

definition ParseInt :: "string \<Rightarrow> int \<times> NumError option" where
  "ParseInt s =
     (case s of
        [] \<Rightarrow> (0, Some ErrSyntax)
      | c # cs \<Rightarrow>
          (let neg = (c = CHR ''-'');
               s' = (if c = CHR ''+'' \<or> c = CHR ''-'' then cs else s);
               (un, err) = ParseUint s'
           in if err = Some ErrSyntax then (0, err)
              else if \<not> neg \<and> 9223372036854775808 \<le> un
                then (9223372036854775807, Some ErrRange)
              else if neg \<and> 9223372036854775808 < un
                then (- 9223372036854775808, Some ErrRange)
              else (if neg then - un else un, None)))"

text \<open>\<open>Atoi\<close> is \<open>ParseInt(s, 10, 0)\<close>; its fast path for short strings gives the same
  results.\<close>

definition Atoi :: "string \<Rightarrow> int \<times> NumError option" where
  "Atoi s = ParseInt s"

definition ParseBool :: "string \<Rightarrow> bool \<times> NumError option" where
  "ParseBool str =
     (if str \<in> set [''1'', ''t'', ''T'', ''true'', ''TRUE'', ''True''] then (True, None)
      else if str \<in> set [''0'', ''f'', ''F'', ''false'', ''FALSE'', ''False''] then (False, None)
      else (False, Some ErrSyntax))"

section \<open>The serializer\<close>

text \<open>
  \<open>parseValue\<close> switches on the leaf's \<open>ValueType\<close> and drops the error of each parse
  (\<open>i, _ := strconv.Atoi(v)\<close>). The parameter \<open>ParseFloat\<close> is
  \<open>strconv.ParseFloat(v, 64)\<close>.
\<close>

definition parseValue :: "(string \<Rightarrow> 'f \<times> NumError option) \<Rightarrow> node \<Rightarrow> 'f goval" where
  "parseValue ParseFloat node =
     (let v = GetText node; ref = GetReference node
      in case ValueType ref of
           Some Int' \<Rightarrow> GInt (fst (Atoi v))
         | Some Float \<Rightarrow> GFloat (fst (ParseFloat v))
         | Some Boolean \<Rightarrow> GBool (fst (ParseBool v))
         | Some Null \<Rightarrow> GNil
         | _ \<Rightarrow> GString v)"

text \<open>
  A run-time panic of the Go program is a value of the model: \<open>node.GetChildren()[0]\<close> on
  an empty child list panics with an index out of range.
\<close>

datatype panic = IndexOutOfRange | NilDereference

text \<open>
  \<open>makeJSON\<close>, with the two \<open>for ... range children\<close> loops of its Object and Array
  branches as \<open>makeJSON_object\<close> and \<open>makeJSON_array\<close>; their last argument is the map,
  or the slice, built so far.
\<close>

fun makeJSON :: "(string \<Rightarrow> 'f \<times> NumError option) \<Rightarrow> node \<Rightarrow> panic + 'f goval"
  and makeJSON_object ::
    "(string \<Rightarrow> 'f \<times> NumError option) \<Rightarrow> node list \<Rightarrow> (string \<times> 'f goval) list \<Rightarrow> panic + 'f goval"
  and makeJSON_array ::
    "(string \<Rightarrow> 'f \<times> NumError option) \<Rightarrow> node list \<Rightarrow> 'f goval list option \<Rightarrow> panic + 'f goval"
where
  "makeJSON pf (Node txt ref children) =
     (case JSONType ref of
        Object \<Rightarrow> makeJSON_object pf children []
      | Array \<Rightarrow> makeJSON_array pf children None
      | Key \<Rightarrow>
          (case children of
             [] \<Rightarrow> Inl IndexOutOfRange
           | v # _ \<Rightarrow>
               if JSONType (GetReference v) = Value then Inr (parseValue pf v)
               else (case makeJSON pf v of
                       Inl p \<Rightarrow> Inl p
                     | Inr j \<Rightarrow> Inr (GMap [(txt, j)])))
      | Value \<Rightarrow> Inr (parseValue pf (Node txt ref children)))"
| "makeJSON_object pf [] i = Inr (GMap i)"
| "makeJSON_object pf (n # ns) i =
     (case makeJSON pf n of
        Inl p \<Rightarrow> Inl p
      | Inr j \<Rightarrow> makeJSON_object pf ns (map_assign (GetText n) j i))"
| "makeJSON_array pf [] i = Inr (slice_value i)"
| "makeJSON_array pf (n # ns) i =
     (case makeJSON pf n of
        Inl p \<Rightarrow> Inl p
      | Inr j \<Rightarrow> makeJSON_array pf ns (append_slice i j))"

section \<open>The tree builder\<close>

text \<open>
  Modelled from the spec: the JSON value, as the spec's data model has it. A number is
  integral (\<open>SInt\<close>) or fractional (\<open>SFloat\<close>, a \<open>float64\<close> that is not a whole number); an
  object is the list of its properties in the decoder's order, one per key.
\<close>

datatype 'f scalar = SNull | SBool bool | SInt int | SFloat 'f | SString string

datatype 'f json =
    JScalar "'f scalar"
  | JArray "'f json list"
  | JObject "(string \<times> 'f json) list"

text \<open>
  Modelled from the spec: the canonical decimal rendering of an integral number, a sign
  for a negative one and then the digits, most significant first.
\<close>

function show_nat :: "int \<Rightarrow> string" where
  "show_nat n = (if n < 10 then [char_of (48 + n)] else show_nat (n div 10) @ [char_of (48 + n mod 10)])"
  by pat_completeness auto
termination
  by (relation "measure nat") auto

declare show_nat.simps [simp del]

definition show_int :: "int \<Rightarrow> string" where
  "show_int n = (if n < 0 then CHR ''-'' # show_nat (- n) else show_nat n)"

text \<open>
  Modelled from the spec: \<open>classify\<close> of the Scalar Classifier (the code is not in
  \<open>gui.go\<close>). The parameter \<open>FormatFloat\<close> is the canonical rendering of a \<open>float64\<close>.
\<close>

definition classify :: "('f \<Rightarrow> string) \<Rightarrow> 'f scalar \<Rightarrow> ValueType \<times> string" where
  "classify FormatFloat value =
     (case value of
        SNull \<Rightarrow> (Null, ''null'')
      | SBool b \<Rightarrow> (Boolean, if b then ''true'' else ''false'')
      | SInt n \<Rightarrow> (Int', show_int n)
      | SFloat x \<Rightarrow> (Float, FormatFloat x)
      | SString s \<Rightarrow> (String, s))"

text \<open>
  Modelled from the spec: \<open>build\<close> of the Tree Builder (\<open>Tree.AddNode\<close> and
  \<open>NewRootTreeNode\<close> are called by \<open>gui.go\<close> and defined elsewhere). An Object node has one
  Key child per property, labelled with the key, whose single child is the built value;
  an Array node has the built elements as children; a scalar is a Value leaf labelled
  with its literal text. The label of an Object or Array node is unused and empty.
\<close>

fun build :: "('f \<Rightarrow> string) \<Rightarrow> 'f json \<Rightarrow> node" where
  "build fmt (JObject kvs) =
     Node [] \<lparr>JSONType = Object, ValueType = None\<rparr>
       (map (\<lambda>kv. Node (fst kv) \<lparr>JSONType = Key, ValueType = None\<rparr> [build fmt (snd kv)]) kvs)"
| "build fmt (JArray es) =
     Node [] \<lparr>JSONType = Array, ValueType = None\<rparr> (map (build fmt) es)"
| "build fmt (JScalar s) =
     Node (snd (classify fmt s)) \<lparr>JSONType = Value, ValueType = Some (fst (classify fmt s))\<rparr> []"

text \<open>
  Modelled from the spec: \<open>buildTopLevelChildren\<close> of the Node Grafter (\<open>Tree.AddNode\<close> in
  the code): the Key children of an object, the element subtrees of an array, the single
  Value node of a scalar.
\<close>

definition buildTopLevelChildren :: "('f \<Rightarrow> string) \<Rightarrow> 'f json \<Rightarrow> node list" where
  "buildTopLevelChildren fmt v =
     (case v of JScalar s \<Rightarrow> [build fmt v] | _ \<Rightarrow> GetChildren (build fmt v))"

text \<open>
  The Go value a JSON value is when every integral number is an \<open>int\<close> and every
  fractional one a \<open>float64\<close>: what a serialized tree is compared with.
\<close>

fun go_value :: "'f json \<Rightarrow> 'f goval" where
  "go_value (JScalar SNull) = GNil"
| "go_value (JScalar (SBool b)) = GBool b"
| "go_value (JScalar (SInt n)) = GInt n"
| "go_value (JScalar (SFloat x)) = GFloat x"
| "go_value (JScalar (SString s)) = GString s"
| "go_value (JArray es) = GSlice (map go_value es)"
| "go_value (JObject kvs) = GMap (map (\<lambda>kv. (fst kv, go_value (snd kv))) kvs)"







section \<open>The structural invariant of Key nodes\<close>

text \<open>The spec's invariant: every Key node of the tree has exactly one child.\<close>

fun key_invariant :: "node \<Rightarrow> bool" where
  "key_invariant (Node txt ref children) =
     ((JSONType ref = Key \<longrightarrow> length children = 1) \<and> list_all key_invariant children)"

section \<open>The filter\<close>

text \<open>
  \<open>strings.ToLower\<close> on a byte string: each of the letters \<open>A\<close> to \<open>Z\<close> becomes its
  lower-case letter. (The library also maps the upper-case letters outside ASCII; such
  bytes are left as they are here.)
\<close>

definition lower_byte :: "char \<Rightarrow> char" where
  "lower_byte c =
     (if 65 \<le> (of_char c :: int) \<and> (of_char c :: int) \<le> 90 then char_of (of_char c + 32 :: int) else c)"

definition ToLower :: "string \<Rightarrow> string" where
  "ToLower s = map lower_byte s"

text \<open>\<open>strings.Index(s, substr)\<close>: the index of the first instance of \<open>substr\<close> in \<open>s\<close>, or
  \<open>-1\<close> when there is none.\<close>

fun Index_from :: "int \<Rightarrow> string \<Rightarrow> string \<Rightarrow> int" where
  "Index_from i [] substr = (if substr = [] then i else - 1)"
| "Index_from i (c # s) substr =
     (if prefix substr (c # s) then i else Index_from (i + 1) s substr)"

definition Index :: "string \<Rightarrow> string \<Rightarrow> int" where
  "Index s substr = Index_from 0 s substr"

text \<open>
  \<open>walk\<close> declares \<open>newNodes\<close> and loops over \<open>nodes\<close>, appending a child whose lowered
  text contains \<open>text\<close> and, for any other child, the result of walking its children.
  \<open>walk_loop\<close> is the loop, with \<open>newNodes\<close> as its last argument.
\<close>

fun walk :: "node list \<Rightarrow> string \<Rightarrow> node list"
  and walk_loop :: "node list \<Rightarrow> string \<Rightarrow> node list \<Rightarrow> node list"
where
  "walk nodes text = walk_loop nodes text []"
| "walk_loop [] text newNodes = newNodes"
| "walk_loop (Node t r cs # nodes) text newNodes =
     (if Index (ToLower t) text \<noteq> - 1
      then walk_loop nodes text (newNodes @ [Node t r cs])
      else walk_loop nodes text (newNodes @ walk cs text))"

section \<open>The tree in the store\<close>

text \<open>
  \<open>Search\<close>, \<open>AddNode\<close> and \<open>AddValue\<close> work on \<open>*tview.TreeNode\<close> pointers and change nodes
  in place, so the nodes live in a store: a pointer is an index into it, a new node is
  appended to it, and an index outside the store is a nil pointer. A store node holds its
  text, its reference and the pointers to its children. A slice of children is the list
  of its elements.
\<close>

type_synonym addr = nat

record TreeNode =
  node_text :: string
  node_reference :: Reference
  node_children :: "addr list"

type_synonym store = "TreeNode list"

definition deref :: "store \<Rightarrow> addr \<Rightarrow> TreeNode option" where
  "deref st a = (if a < length st then Some (st ! a) else None)"

text \<open>The tree a pointer stands for: \<open>tree_at st n a\<close> holds when the store has the tree
  \<open>n\<close> at \<open>a\<close>.\<close>

fun tree_at :: "store \<Rightarrow> node \<Rightarrow> addr \<Rightarrow> bool" where
  "tree_at st (Node t r cs) a =
     (case deref st a of
        None \<Rightarrow> False
      | Some c \<Rightarrow> node_text c = t \<and> node_reference c = r \<and> list_all2 (tree_at st) cs (node_children c))"

text \<open>
  The state of the \<open>Gui\<close> that the callbacks use: the store, the root and the current
  node of the tree view (\<open>GetRoot\<close>, \<open>GetCurrentNode\<close>) and \<open>Tree.OriginRoot\<close>; each of the
  three pointers may be nil (\<open>None\<close>).
\<close>

record Gui =
  nodes_store :: store
  Root :: "addr option"
  CurrentNode :: "addr option"
  OriginRoot :: "addr option"

text \<open>
  \<open>walk\<close> on pointers. It returns the pointers it selected, panics on a nil pointer, or
  does not return (\<open>None\<close>) when the children of the store never end.
\<close>

partial_function (option) walk_store :: "store \<Rightarrow> addr list \<Rightarrow> string \<Rightarrow> (panic + addr list) option" where
  "walk_store st nodes text =
     (case nodes of
        [] \<Rightarrow> Some (Inr [])
      | child # rest \<Rightarrow>
          (case deref st child of
             None \<Rightarrow> Some (Inl NilDereference)
           | Some c \<Rightarrow>
               if Index (ToLower (node_text c)) text \<noteq> - 1
               then Option.bind (walk_store st rest text)
                      (\<lambda>r. Some (case r of Inl p \<Rightarrow> Inl p | Inr ns \<Rightarrow> Inr (child # ns)))
               else Option.bind (walk_store st (node_children c) text)
                      (\<lambda>r1. case r1 of
                               Inl p \<Rightarrow> Some (Inl p)
                             | Inr ns1 \<Rightarrow>
                                 Option.bind (walk_store st rest text)
                                   (\<lambda>r2. Some (case r2 of Inl p \<Rightarrow> Inl p | Inr ns2 \<Rightarrow> Inr (ns1 @ ns2))))))"

declare walk_store.simps [code]

text \<open>
  The function \<open>Search\<close> gives the input field for each change of its text: it copies the
  node \<open>OriginRoot\<close> points to into a new node, makes the copy the root of the tree view
  and, unless the text is empty, sets the copy's children to what \<open>walk\<close> selects from
  them. The text goes to \<open>walk\<close> as it was typed.
\<close>

definition Search_changed :: "string \<Rightarrow> Gui \<Rightarrow> (panic + Gui) option" where
  "Search_changed text g =
     (case OriginRoot g of
        None \<Rightarrow> Some (Inl NilDereference)
      | Some origin \<Rightarrow>
          (case deref (nodes_store g) origin of
             None \<Rightarrow> Some (Inl NilDereference)
           | Some root \<Rightarrow>
               (let r = length (nodes_store g);
                    g1 = g\<lparr>nodes_store := nodes_store g @ [root], Root := Some r\<rparr>
                in if text \<noteq> []
                   then Option.bind (walk_store (nodes_store g1) (node_children root) text)
                          (\<lambda>res. case res of
                                    Inl p \<Rightarrow> Some (Inl p)
                                  | Inr ns \<Rightarrow>
                                      Some (Inr (g1\<lparr>nodes_store :=
                                        (nodes_store g1)[r := root\<lparr>node_children := ns\<rparr>]\<rparr>)))
                   else Some (Inr g1))))"

text \<open>A sequence of changes of the search text, one filter call each.\<close>

fun Search_run :: "string list \<Rightarrow> Gui \<Rightarrow> (panic + Gui) option" where
  "Search_run [] g = Some (Inr g)"
| "Search_run (text # texts) g =
     Option.bind (Search_changed text g)
       (\<lambda>res. case res of Inl p \<Rightarrow> Some (Inl p) | Inr g' \<Rightarrow> Search_run texts g')"

section \<open>Decoding and grafting\<close>

text \<open>
  The errors a callback returns: \<open>ErrEmptyJSON\<close> of \<open>gui.go\<close>, and the errors that the
  packages \<open>encoding/json\<close> and \<open>os\<close> return, which \<open>gui.go\<close> passes on as they are.
\<close>

datatype error = ErrEmptyJSON | JSONError | OSError

text \<open>
  \<open>UnMarshalJSON\<close> reads the whole input and decodes it. Its reader is what
  \<open>ioutil.ReadAll\<close> gets from it, an error or the bytes; the parameter \<open>Unmarshal\<close> is
  \<open>json.Unmarshal\<close>, which returns an error for bytes that are not valid JSON.
\<close>

type_synonym reader = "error + string"

definition UnMarshalJSON :: "(string \<Rightarrow> error + 'f json) \<Rightarrow> reader \<Rightarrow> error + 'f json" where
  "UnMarshalJSON Unmarshal in_reader =
     (case in_reader of
        Inl err \<Rightarrow> Inl err
      | Inr b \<Rightarrow>
          if length b = 0 then Inl ErrEmptyJSON
          else (case Unmarshal b of Inl err \<Rightarrow> Inl err | Inr i \<Rightarrow> Inr i))"

text \<open>
  The nodes a builder returns are new nodes of the store. \<open>layout base n\<close> gives the store
  nodes of the tree \<open>n\<close> when the first of them gets the pointer \<open>base\<close>, children before
  their parent, and the pointer to the root of \<open>n\<close>.
\<close>

fun layout :: "addr \<Rightarrow> node \<Rightarrow> addr \<times> store"
  and layout_list :: "addr \<Rightarrow> node list \<Rightarrow> addr list \<times> store"
where
  "layout base (Node t r cs) =
     (let (as, cells) = layout_list base cs
      in (base + length cells, cells @ [\<lparr>node_text = t, node_reference = r, node_children = as\<rparr>]))"
| "layout_list base [] = ([], [])"
| "layout_list base (c # cs) =
     (let (a, cells1) = layout base c;
          (as, cells2) = layout_list (base + length cells1) cs
      in (a # as, cells1 @ cells2))"

definition new_nodes :: "node list \<Rightarrow> store \<Rightarrow> addr list \<times> store" where
  "new_nodes ns st = (let (as, cells) = layout_list (length st) ns in (as, st @ cells))"

text \<open>\<open>n.SetChildren(children)\<close> and \<open>n.AddChild(node)\<close> of \<open>tview.TreeNode\<close>; on a nil
  receiver they panic.\<close>

definition SetChildren :: "addr \<Rightarrow> addr list \<Rightarrow> store \<Rightarrow> panic + store" where
  "SetChildren n cs st =
     (case deref st n of
        None \<Rightarrow> Inl NilDereference
      | Some c \<Rightarrow> Inr (st[n := c\<lparr>node_children := cs\<rparr>]))"

definition AddChild :: "addr option \<Rightarrow> addr \<Rightarrow> store \<Rightarrow> panic + store" where
  "AddChild n child st =
     (case n of
        None \<Rightarrow> Inl NilDereference
      | Some a \<Rightarrow>
          (case deref st a of
             None \<Rightarrow> Inl NilDereference
           | Some c \<Rightarrow> Inr (st[a := c\<lparr>node_children := node_children c @ [child]\<rparr>])))"

text \<open>
  The function \<open>AddNode\<close> gives its form. \<open>NewRootTreeNode\<close> and \<open>Tree.AddNode\<close> are
  defined outside \<open>gui.go\<close> and are parameters: the first gives the text and the
  reference of the new wrapper node, the second the trees of the fragment's top level.
  A callback returns its error (\<open>None\<close> is \<open>nil\<close>) and leaves the \<open>Gui\<close>, or panics.
\<close>

definition AddNode_done ::
  "(string \<Rightarrow> error + 'f json) \<Rightarrow> ('f json \<Rightarrow> string \<times> Reference) \<Rightarrow> ('f json \<Rightarrow> node list) \<Rightarrow>
   string \<Rightarrow> Gui \<Rightarrow> panic + (error option \<times> Gui)" where
  "AddNode_done Unmarshal NewRootTreeNode Tree_AddNode j g =
     (if j = [] then Inr (Some ErrEmptyJSON, g)
      else
        (case UnMarshalJSON Unmarshal (Inr j) of
           Inl err \<Rightarrow> Inr (Some err, g)
         | Inr i \<Rightarrow>
             (let newNode = length (nodes_store g);
                  st1 = nodes_store g @
                    [\<lparr>node_text = fst (NewRootTreeNode i), node_reference = snd (NewRootTreeNode i),
                      node_children = []\<rparr>];
                  (children, st2) = new_nodes (Tree_AddNode i) st1
              in case SetChildren newNode children st2 of
                   Inl p \<Rightarrow> Inl p
                 | Inr st3 \<Rightarrow>
                     (case AddChild (CurrentNode g) newNode st3 of
                        Inl p \<Rightarrow> Inl p
                      | Inr st4 \<Rightarrow> Inr (None, g\<lparr>nodes_store := st4, OriginRoot := Root g\<rparr>)))))"

text \<open>The loop \<open>for _, n := range g.Tree.AddNode(i) { current.AddChild(n) }\<close>.\<close>

fun AddValue_loop :: "addr option \<Rightarrow> addr list \<Rightarrow> store \<Rightarrow> panic + store" where
  "AddValue_loop current [] st = Inr st"
| "AddValue_loop current (n # ns) st =
     (case AddChild current n st of
        Inl p \<Rightarrow> Inl p
      | Inr st' \<Rightarrow> AddValue_loop current ns st')"

definition AddValue_done ::
  "(string \<Rightarrow> error + 'f json) \<Rightarrow> ('f json \<Rightarrow> node list) \<Rightarrow>
   string \<Rightarrow> Gui \<Rightarrow> panic + (error option \<times> Gui)" where
  "AddValue_done Unmarshal Tree_AddNode j g =
     (if j = [] then Inr (Some ErrEmptyJSON, g)
      else
        (case UnMarshalJSON Unmarshal (Inr j) of
           Inl err \<Rightarrow> Inr (Some err, g)
         | Inr i \<Rightarrow>
             (let current = CurrentNode g;
                  (children, st1) = new_nodes (Tree_AddNode i) (nodes_store g)
              in case AddValue_loop current children st1 of
                   Inl p \<Rightarrow> Inl p
                 | Inr st2 \<Rightarrow> Inr (None, g\<lparr>nodes_store := st2, OriginRoot := Root g\<rparr>))))"

text \<open>
  The function \<open>LoadJSON\<close> gives its form. The parameter \<open>Open\<close> is \<open>os.Open\<close>, an error or
  the file as a reader; \<open>UpdateView\<close> is \<open>Tree.UpdateView\<close>, defined outside \<open>gui.go\<close>.
\<close>

definition LoadJSON_done ::
  "(string \<Rightarrow> error + reader) \<Rightarrow> (string \<Rightarrow> error + 'f json) \<Rightarrow> ('f json \<Rightarrow> Gui \<Rightarrow> Gui) \<Rightarrow>
   string \<Rightarrow> Gui \<Rightarrow> error option \<times> Gui" where
  "LoadJSON_done Open Unmarshal UpdateView fileName g =
     (case Open fileName of
        Inl err \<Rightarrow> (Some err, g)
      | Inr file \<Rightarrow>
          (case UnMarshalJSON Unmarshal file of
             Inl err \<Rightarrow> (Some err, g)
           | Inr i \<Rightarrow> (None, UpdateView i g)))"

section \<open>An example state\<close>

text \<open>
  The tree of the document \<open>{"alpha":1,"beta":{"gamma":2}}\<close> in a store, its root at
  pointer 6, with the root selected and \<open>OriginRoot\<close> pointing to it.
\<close>

definition example_tree :: node where
  "example_tree =
     Node [] \<lparr>JSONType = Object, ValueType = None\<rparr>
       [Node ''alpha'' \<lparr>JSONType = Key, ValueType = None\<rparr>
          [Node ''1'' \<lparr>JSONType = Value, ValueType = Some Int'\<rparr> []],
        Node ''beta'' \<lparr>JSONType = Key, ValueType = None\<rparr>
          [Node [] \<lparr>JSONType = Object, ValueType = None\<rparr>
             [Node ''gamma'' \<lparr>JSONType = Key, ValueType = None\<rparr>
                [Node ''2'' \<lparr>JSONType = Value, ValueType = Some Int'\<rparr> []]]]]"

definition example_gui :: Gui where
  "example_gui =
     \<lparr>nodes_store =
        [\<lparr>node_text = ''1'', node_reference = \<lparr>JSONType = Value, ValueType = Some Int'\<rparr>, node_children = []\<rparr>,
         \<lparr>node_text = ''alpha'', node_reference = \<lparr>JSONType = Key, ValueType = None\<rparr>, node_children = [0]\<rparr>,
         \<lparr>node_text = ''2'', node_reference = \<lparr>JSONType = Value, ValueType = Some Int'\<rparr>, node_children = []\<rparr>,
         \<lparr>node_text = ''gamma'', node_reference = \<lparr>JSONType = Key, ValueType = None\<rparr>, node_children = [2]\<rparr>,
         \<lparr>node_text = [], node_reference = \<lparr>JSONType = Object, ValueType = None\<rparr>, node_children = [3]\<rparr>,
         \<lparr>node_text = ''beta'', node_reference = \<lparr>JSONType = Key, ValueType = None\<rparr>, node_children = [4]\<rparr>,
         \<lparr>node_text = [], node_reference = \<lparr>JSONType = Object, ValueType = None\<rparr>, node_children = [1, 5]\<rparr>],
      Root = Some 6, CurrentNode = Some 6, OriginRoot = Some 6\<rparr>"

text \<open>A decoder for the examples: it stands for \<open>json.Unmarshal\<close> on the fragment
  \<open>{"x":1,"y":2}\<close> and on bytes that are not JSON.\<close>

definition example_Unmarshal :: "string \<Rightarrow> error + unit json" where
  "example_Unmarshal b =
     (if b = ''{\"x\":1,\"y\":2}'' then Inr (JObject [(''x'', JScalar (SInt 1)), (''y'', JScalar (SInt 2))])
      else Inl JSONError)"

section \<open>Package strconv: the parsers read back what the renderer writes\<close>

lemma ParseUint_loop_err:
  "ParseUint_loop n s = (u, Some e) \<Longrightarrow> (e = ErrSyntax \<and> u = 0) \<or> (e = ErrRange \<and> u = maxUint64)"
  by (induction n s rule: ParseUint_loop.induct) (auto split: if_splits)

lemma ParseUint_err:
  "ParseUint s = (u, Some e) \<Longrightarrow> (e = ErrSyntax \<and> u = 0) \<or> (e = ErrRange \<and> u = maxUint64)"
  by (auto simp: ParseUint_def split: if_splits dest: ParseUint_loop_err)












section \<open>The serializer on built trees\<close>


lemma makeJSON_Value_leaf:
  "JSONType ref = Value \<Longrightarrow> makeJSON pf (Node t ref cs) = Inr (parseValue pf (Node t ref cs))"
  by simp






section \<open>The serializer: panics and the Key branch\<close>

lemma goval_not_in_own_map: "GMap [(k, j)] \<noteq> j"
proof
  assume "GMap [(k, j)] = j"
  then have "size (GMap [(k, j)]) = size j" by simp
  then show False by simp
qed

lemma makeJSON_total_aux:
  "key_invariant n \<Longrightarrow> \<exists>j. makeJSON pf n = Inr j"
  "list_all key_invariant ns \<Longrightarrow> \<exists>j. makeJSON_object pf ns i = Inr j"
  "list_all key_invariant ns \<Longrightarrow> \<exists>j. makeJSON_array pf ns s = Inr j"
proof (induction pf n and pf ns i and pf ns s rule: makeJSON_makeJSON_object_makeJSON_array.induct)
  case (1 pf t r cs)
  show ?case
  proof (cases "JSONType r")
    case Object
    with 1 show ?thesis by simp
  next
    case Array
    with 1 show ?thesis by simp
  next
    case Key
    with "1.prems" obtain v where v: "cs = [v]" "key_invariant v"
      by (cases cs) auto
    show ?thesis
    proof (cases "JSONType (GetReference v) = Value")
      case True
      with Key v show ?thesis by simp
    next
      case False
      with "1.IH"(3)[OF Key, of v "[]"] v obtain j where "makeJSON pf v = Inr j" by auto
      with Key v False show ?thesis by simp
    qed
  next
    case Value
    then show ?thesis by simp
  qed
next
  case (2 pf i)
  then show ?case by simp
next
  case (3 pf n ns i)
  then obtain j where "makeJSON pf n = Inr j" by auto
  with 3 show ?case by auto
next
  case (4 pf i)
  then show ?case by simp
next
  case (5 pf n ns i)
  then obtain j where "makeJSON pf n = Inr j" by auto
  with 5 show ?case by auto
qed

lemma makeJSON_panic_aux:
  "makeJSON pf n = Inl p \<Longrightarrow> p = IndexOutOfRange"
  "makeJSON_object pf ns i = Inl p \<Longrightarrow> p = IndexOutOfRange"
  "makeJSON_array pf ns s = Inl p \<Longrightarrow> p = IndexOutOfRange"
  by (induction pf n and pf ns i and pf ns s rule: makeJSON_makeJSON_object_makeJSON_array.induct)
     (auto split: JSONType.splits list.splits if_splits sum.splits)

section \<open>The filter\<close>



lemma walk_concat:
  "walk nodes q = concat (map (\<lambda>child. if Index (ToLower (GetText child)) q \<noteq> - 1 then [child] else walk (GetChildren child) q) nodes)"
  and walk_loop_concat:
  "walk_loop nodes q acc = acc @ concat (map (\<lambda>child. if Index (ToLower (GetText child)) q \<noteq> - 1 then [child] else walk (GetChildren child) q) nodes)"
  by (induction nodes q and nodes q acc rule: walk_walk_loop.induct) (simp_all del: walk.simps, simp_all)

lemma walk_Nil: "walk [] q = []"
  by simp

lemma walk_Cons:
  "walk (Node t r cs # rest) q =
     (if Index (ToLower t) q \<noteq> - 1 then Node t r cs # walk rest q else walk cs q @ walk rest q)"
  by (simp add: walk_concat[of "Node t r cs # rest"] walk_concat[of rest, symmetric] del: walk.simps)

section \<open>The store\<close>

lemma deref_append: "deref st a = Some c \<Longrightarrow> deref (st @ ext) a = Some c"
  by (auto simp: deref_def nth_append split: if_splits)

lemma tree_at_append: "tree_at st n a \<Longrightarrow> tree_at (st @ ext) n a"
proof (induction st n a rule: tree_at.induct)
  case (1 st t r cs a)
  from "1.prems" obtain c where c: "deref st a = Some c" "node_text c = t" "node_reference c = r"
    "list_all2 (tree_at st) cs (node_children c)"
    by (auto split: option.splits)
  from c(4) "1.IH"[OF c(1)] have "list_all2 (tree_at (st @ ext)) cs (node_children c)"
    by (auto simp: list_all2_conv_all_nth dest: nth_mem)
  with c deref_append[OF c(1), of ext] show ?case by simp
qed

lemma walk_store_Nil: "walk_store st [] q = Some (Inr [])"
  by (subst walk_store.simps) simp

lemma walk_store_refines:
  "list_all2 (tree_at st) ts as \<Longrightarrow>
   \<exists>bs. walk_store st as q = Some (Inr bs) \<and> list_all2 (tree_at st) (walk ts q) bs"
proof (induction ts arbitrary: as rule: measure_induct_rule[where f = "size_list size"])
  case (less ts)
  show ?case
  proof (cases ts)
    case Nil
    with less.prems show ?thesis by (simp add: walk_store_Nil)
  next
    case (Cons n rest)
    obtain t r cs where n: "n = Node t r cs" by (cases n)
    from less.prems Cons obtain a as' where as: "as = a # as'" "tree_at st n a" "list_all2 (tree_at st) rest as'"
      by (auto simp: list_all2_Cons1)
    from as(2) n obtain c where c: "deref st a = Some c" "node_text c = t" "node_reference c = r"
      "list_all2 (tree_at st) cs (node_children c)"
      by (auto split: option.splits)
    from less.IH[of rest as'] as(3) Cons obtain bs2 where
      bs2: "walk_store st as' q = Some (Inr bs2)" "list_all2 (tree_at st) (walk rest q) bs2"
      by auto
    show ?thesis
    proof (cases "Index (ToLower t) q \<noteq> - 1")
      case True
      with c bs2 as have "walk_store st as q = Some (Inr (a # bs2))"
        by (subst walk_store.simps) simp
      moreover from True bs2 as n have "list_all2 (tree_at st) (walk ts q) (a # bs2)"
        unfolding Cons n walk_Cons by simp
      ultimately show ?thesis by blast
    next
      case False
      from less.IH[of cs "node_children c"] c(4) Cons n obtain bs1 where
        bs1: "walk_store st (node_children c) q = Some (Inr bs1)" "list_all2 (tree_at st) (walk cs q) bs1"
        by auto
      from False c bs1 bs2 as have "walk_store st as q = Some (Inr (bs1 @ bs2))"
        by (subst walk_store.simps) simp
      moreover from False bs1 bs2 have "list_all2 (tree_at st) (walk ts q) (bs1 @ bs2)"
        unfolding Cons n walk_Cons by (simp add: list_all2_appendI)
      ultimately show ?thesis by blast
    qed
  qed
qed

section \<open>The claims on the serializer and the filter\<close>

lemma makeJSON_Key_composite:
  "JSONType ref = Key \<Longrightarrow> JSONType (GetReference v) \<noteq> Value \<Longrightarrow> makeJSON pf v = Inr j \<Longrightarrow>
   makeJSON pf (Node k ref (v # cs)) = Inr (GMap [(k, j)]) \<and> GMap [(k, j)] \<noteq> j"
  using goval_not_in_own_map[of k j] by simp

text \<open>
  Claim C1: for a Key node whose single child is an Object or Array node, the serializer
  returns the child's serialized value itself, not wrapped again under the key's label.
  The code does wrap it: the Key branch returns a map with the one entry from the key's
  text to the child's value (\<open>makeJSON_Key_composite\<close>). Here the code runs on the Key node
  \<open>a\<close> over the object with the property \<open>b\<close> of value 1: the child alone gives the map of
  \<open>b\<close> to 1, the Key node gives the map of \<open>a\<close> to that map, and the tree built from the
  document whose property \<open>a\<close> is that object gives \<open>a\<close> nested twice.
\<close>

theorem makeJSON_Key_rewraps_composite:
  "makeJSON pf
     (Node ''b'' \<lparr>JSONType = Key, ValueType = None\<rparr>
        [Node ''1'' \<lparr>JSONType = Value, ValueType = Some Int'\<rparr> []])
     = Inr (GInt 1)
   \<and> makeJSON pf
     (Node [] \<lparr>JSONType = Object, ValueType = None\<rparr>
        [Node ''b'' \<lparr>JSONType = Key, ValueType = None\<rparr>
           [Node ''1'' \<lparr>JSONType = Value, ValueType = Some Int'\<rparr> []]])
     = Inr (GMap [(''b'', GInt 1)])
   \<and> makeJSON pf
     (Node ''a'' \<lparr>JSONType = Key, ValueType = None\<rparr>
        [Node [] \<lparr>JSONType = Object, ValueType = None\<rparr>
           [Node ''b'' \<lparr>JSONType = Key, ValueType = None\<rparr>
              [Node ''1'' \<lparr>JSONType = Value, ValueType = Some Int'\<rparr> []]]])
     = Inr (GMap [(''a'', GMap [(''b'', GInt 1)])])
   \<and> makeJSON pf (build fmt (JObject [(''a'', JObject [(''b'', JScalar (SInt 1))])]))
     = Inr (GMap [(''a'', GMap [(''a'', GMap [(''b'', GInt 1)])])])"
proof -
  have a: "Atoi ''1'' = (1, None)" by code_simp
  have s: "show_int 1 = ''1''" by code_simp
  show ?thesis by (simp add: parseValue_def classify_def a s)
qed




text \<open>
  The bound on the integral numbers is needed as well: the number \<open>9223372036854775808\<close>
  is rendered with all its digits, \<open>Atoi\<close> reports a range error for them, and the leaf
  serializes to the largest \<open>int\<close>.
\<close>

lemma makeJSON_build_large_int:
  "makeJSON pf (build fmt (JScalar (SInt 9223372036854775808))) = Inr (GInt 9223372036854775807)"
proof -
  have s: "show_int 9223372036854775808 = ''9223372036854775808''" by code_simp
  have a: "Atoi ''9223372036854775808'' = (9223372036854775807, Some ErrRange)" by code_simp
  show ?thesis by (simp add: parseValue_def classify_def s a)
qed




text \<open>
  Claim C9: serializing an Array node with no children returns the nil slice, which is
  written as JSON \<open>null\<close> and is not the empty slice; so the tree built from an empty array
  does not serialize to the empty array.
\<close>

theorem makeJSON_empty_Array_is_nil:
  "makeJSON pf (Node t \<lparr>JSONType = Array, ValueType = vt\<rparr> []) = Inr GNilSlice
   \<and> encodes_as_null (GNilSlice :: 'f goval)
   \<and> (GNilSlice :: 'f goval) \<noteq> GSlice []
   \<and> makeJSON pf (build fmt (JArray [])) = Inr GNilSlice
   \<and> go_value (JArray [] :: 'f json) = GSlice []"
  by (simp add: slice_value_def encodes_as_null_def)

text \<open>
  Claim C10: the serializer panics with an index out of range on a Key node that has no
  children; on a tree in which every Key node has exactly one child it returns a value;
  and when it panics, the panic is that one and the tree breaks the invariant.
\<close>

theorem makeJSON_total_under_key_invariant:
  "makeJSON pf (Node t \<lparr>JSONType = Key, ValueType = vt\<rparr> []) = Inl IndexOutOfRange
   \<and> (key_invariant n \<longrightarrow> (\<exists>j. makeJSON pf n = Inr j))
   \<and> (makeJSON pf n = Inl p \<longrightarrow> p = IndexOutOfRange \<and> \<not> key_invariant n)"
  using makeJSON_total_aux(1)[of n pf] makeJSON_panic_aux(1)[of pf n p] by auto

text \<open>An object with one property serializes; an array holding a Key node without
  children panics.\<close>

theorem makeJSON_total_under_key_invariant_witness:
  "key_invariant (Node [] \<lparr>JSONType = Object, ValueType = None\<rparr>
        [Node ''b'' \<lparr>JSONType = Key, ValueType = None\<rparr>
           [Node ''1'' \<lparr>JSONType = Value, ValueType = Some Int'\<rparr> []]])
   \<and> (\<exists>j. makeJSON (\<lambda>s. ((), None)) (Node [] \<lparr>JSONType = Object, ValueType = None\<rparr>
        [Node ''b'' \<lparr>JSONType = Key, ValueType = None\<rparr>
           [Node ''1'' \<lparr>JSONType = Value, ValueType = Some Int'\<rparr> []]]) = Inr j)
   \<and> makeJSON (\<lambda>s. ((), None)) (Node [] \<lparr>JSONType = Array, ValueType = None\<rparr>
        [Node ''k'' \<lparr>JSONType = Key, ValueType = None\<rparr> []]) = Inl IndexOutOfRange
   \<and> \<not> key_invariant (Node [] \<lparr>JSONType = Array, ValueType = None\<rparr>
        [Node ''k'' \<lparr>JSONType = Key, ValueType = None\<rparr> []])"
proof -
  have k: "key_invariant (Node [] \<lparr>JSONType = Object, ValueType = None\<rparr>
        [Node ''b'' \<lparr>JSONType = Key, ValueType = None\<rparr>
           [Node ''1'' \<lparr>JSONType = Value, ValueType = Some Int'\<rparr> []]])" by simp
  have p: "makeJSON (\<lambda>s. ((), None)) (Node [] \<lparr>JSONType = Array, ValueType = None\<rparr>
        [Node ''k'' \<lparr>JSONType = Key, ValueType = None\<rparr> []]) = Inl IndexOutOfRange" by simp
  from makeJSON_total_under_key_invariant[of "\<lambda>s. ((), None)" _ _ "Node [] \<lparr>JSONType = Object, ValueType = None\<rparr>
        [Node ''b'' \<lparr>JSONType = Key, ValueType = None\<rparr>
           [Node ''1'' \<lparr>JSONType = Value, ValueType = Some Int'\<rparr> []]]"] k
       makeJSON_total_under_key_invariant[of "\<lambda>s. ((), None)" _ _ "Node [] \<lparr>JSONType = Array, ValueType = None\<rparr>
        [Node ''k'' \<lparr>JSONType = Key, ValueType = None\<rparr> []]" IndexOutOfRange] p
  show ?thesis by blast
qed

text \<open>
  Claim C4: the match test of the filter is case-insensitive substring containment, so a
  query that differs from a label only in letter case matches it. The code lowers the
  label and not the query: the query \<open>Alpha\<close> does not match the node \<open>alpha\<close>, though the
  two lowered texts contain each other, and the lowered query does match. \<open>Search\<close> gives
  the text to \<open>walk\<close> as it was typed: on the example state the text \<open>Gam\<close> leaves the
  root of the tree view without children, the text \<open>gam\<close> leaves it the node \<open>gamma\<close>.
\<close>

theorem walk_query_not_lowered:
  "Index (ToLower ''alpha'') ''Alpha'' = - 1
   \<and> walk [Node ''alpha'' r []] ''Alpha'' = []
   \<and> sublist (ToLower ''Alpha'') (ToLower ''alpha'')
   \<and> walk [Node ''alpha'' r []] (ToLower ''Alpha'') = [Node ''alpha'' r []]
   \<and> (case Search_changed ''Gam'' example_gui of
         Some (Inr g1) \<Rightarrow> Root g1 = Some 7 \<and> map node_children (nodes_store g1) ! 7 = []
       | _ \<Rightarrow> False)
   \<and> (case Search_changed ''gam'' example_gui of
         Some (Inr g1) \<Rightarrow> Root g1 = Some 7 \<and> map node_children (nodes_store g1) ! 7 = [3]
       | _ \<Rightarrow> False)"
proof -
  have l: "ToLower ''alpha'' = ''alpha''" "ToLower ''Alpha'' = ''alpha''" by code_simp+
  have i: "Index ''alpha'' ''Alpha'' = - 1" "Index ''alpha'' ''alpha'' = 0" by code_simp+
  have s1: "(case Search_changed ''Gam'' example_gui of
         Some (Inr g1) \<Rightarrow> Root g1 = Some 7 \<and> map node_children (nodes_store g1) ! 7 = []
       | _ \<Rightarrow> False)" by code_simp
  have s2: "(case Search_changed ''gam'' example_gui of
         Some (Inr g1) \<Rightarrow> Root g1 = Some 7 \<and> map node_children (nodes_store g1) ! 7 = [3]
       | _ \<Rightarrow> False)" by code_simp
  show ?thesis using s1 s2 by (simp add: l i)
qed


section \<open>The claims on the filter state, decoding and grafting\<close>

lemma Search_changed_returns:
  assumes o: "OriginRoot g = Some origin" and t: "tree_at (nodes_store g) snapshot origin"
  shows "\<exists>g' root. Search_changed q g = Some (Inr g')
           \<and> nodes_store g' = nodes_store g @ [root]
           \<and> OriginRoot g' = Some origin
           \<and> CurrentNode g' = CurrentNode g
           \<and> Root g' = Some (length (nodes_store g))
           \<and> node_text root = GetText snapshot \<and> node_reference root = GetReference snapshot
           \<and> (q = [] \<longrightarrow> deref (nodes_store g) origin = Some root)"
proof -
  obtain tx r cs where n: "snapshot = Node tx r cs" by (cases snapshot)
  from t n obtain c where c: "deref (nodes_store g) origin = Some c" "node_text c = tx"
    "node_reference c = r" "list_all2 (tree_at (nodes_store g)) cs (node_children c)"
    by (auto split: option.splits)
  show ?thesis
  proof (cases "q = []")
    case True
    with o c n show ?thesis by (simp add: Search_changed_def)
  next
    case False
    from c(4) have "list_all2 (tree_at (nodes_store g @ [c])) cs (node_children c)"
      by (auto simp: list_all2_conv_all_nth intro: tree_at_append)
    from walk_store_refines[OF this, of q] obtain bs where
      bs: "walk_store (nodes_store g @ [c]) (node_children c) q = Some (Inr bs)" by blast
    with False o c n show ?thesis by (simp add: Search_changed_def)
  qed
qed

lemma Search_run_returns:
  "OriginRoot g = Some origin \<Longrightarrow> tree_at (nodes_store g) snapshot origin \<Longrightarrow>
   \<exists>g' ext. Search_run texts g = Some (Inr g')
           \<and> nodes_store g' = nodes_store g @ ext
           \<and> OriginRoot g' = Some origin"
proof (induction texts arbitrary: g)
  case Nil
  then show ?case by simp
next
  case (Cons q texts)
  from Search_changed_returns[OF Cons.prems, of q] obtain g1 root where
    g1: "Search_changed q g = Some (Inr g1)" "nodes_store g1 = nodes_store g @ [root]"
        "OriginRoot g1 = Some origin"
    by blast
  from Cons.prems(2) g1(2) have "tree_at (nodes_store g1) snapshot origin"
    by (simp add: tree_at_append)
  from Cons.IH[OF g1(3) this] obtain g' ext where
    "Search_run texts g1 = Some (Inr g')" "nodes_store g' = nodes_store g1 @ ext" "OriginRoot g' = Some origin"
    by blast
  with g1 show ?case by simp
qed

text \<open>
  Claim C6: when \<open>OriginRoot\<close> points to a tree in the store, any sequence of filter calls
  returns; it leaves \<open>OriginRoot\<close> and every node that was in the store as they were, so
  the snapshot and the child lists of its nodes are not changed; and a filter call with
  the empty text then makes the root of the tree view a copy of the node \<open>OriginRoot\<close>
  points to, which stands for the same tree as the snapshot.
\<close>

theorem Search_restores_snapshot:
  assumes "OriginRoot g = Some origin" and "tree_at (nodes_store g) snapshot origin"
  shows "\<exists>g' g'' root.
           Search_run texts g = Some (Inr g')
         \<and> OriginRoot g' = Some origin
         \<and> take (length (nodes_store g)) (nodes_store g') = nodes_store g
         \<and> tree_at (nodes_store g') snapshot origin
         \<and> Search_changed [] g' = Some (Inr g'')
         \<and> Root g'' = Some root
         \<and> tree_at (nodes_store g'') snapshot root
         \<and> deref (nodes_store g'') root = deref (nodes_store g) origin
         \<and> take (length (nodes_store g)) (nodes_store g'') = nodes_store g"
proof -
  from Search_run_returns[OF assms, of texts] obtain g' ext where
    g': "Search_run texts g = Some (Inr g')" "nodes_store g' = nodes_store g @ ext"
        "OriginRoot g' = Some origin"
    by blast
  from assms(2) g'(2) have t': "tree_at (nodes_store g') snapshot origin"
    by (simp add: tree_at_append)
  from Search_changed_returns[OF g'(3) t', of "[]"] obtain g'' root where
    g'': "Search_changed [] g' = Some (Inr g'')" "nodes_store g'' = nodes_store g' @ [root]"
         "Root g'' = Some (length (nodes_store g'))" "deref (nodes_store g') origin = Some root"
    by blast
  obtain tx r cs where n: "snapshot = Node tx r cs" by (cases snapshot)
  from assms(2) n obtain c where c: "deref (nodes_store g) origin = Some c"
    by (auto split: option.splits)
  from c g'(2) have c': "deref (nodes_store g') origin = Some c" by (simp add: deref_append)
  with g''(4) have rc: "root = c" by simp
  have d: "deref (nodes_store g'') (length (nodes_store g')) = Some root"
    using g''(2) by (simp add: deref_def)
  from t' n c' rc have "list_all2 (tree_at (nodes_store g')) cs (node_children root)"
    "node_text root = tx" "node_reference root = r"
    by (auto split: option.splits)
  then have "tree_at (nodes_store g'') snapshot (length (nodes_store g'))"
    using d n g''(2) by (auto simp: list_all2_conv_all_nth intro: tree_at_append)
  with g' g'' t' c rc d show ?thesis by auto
qed

text \<open>The filter calls \<open>gam\<close> and \<open>Zeta\<close> on the example state, then the empty
  text.\<close>

theorem Search_restores_snapshot_witness:
  "OriginRoot example_gui = Some 6
   \<and> tree_at (nodes_store example_gui) example_tree 6
   \<and> (\<exists>g' g'' root.
           Search_run [''gam'', ''Zeta''] example_gui = Some (Inr g')
         \<and> OriginRoot g' = Some 6
         \<and> take (length (nodes_store example_gui)) (nodes_store g') = nodes_store example_gui
         \<and> tree_at (nodes_store g') example_tree 6
         \<and> Search_changed [] g' = Some (Inr g'')
         \<and> Root g'' = Some root
         \<and> tree_at (nodes_store g'') example_tree root
         \<and> deref (nodes_store g'') root = deref (nodes_store example_gui) 6
         \<and> take (length (nodes_store example_gui)) (nodes_store g'') = nodes_store example_gui)"
proof -
  have o: "OriginRoot example_gui = Some 6" by (simp add: example_gui_def)
  have t: "tree_at (nodes_store example_gui) example_tree 6"
    by (simp add: example_gui_def example_tree_def deref_def)
  from Search_restores_snapshot[OF o t, of "[''gam'', ''Zeta'']"] o t show ?thesis by blast
qed

lemma list_all2_tree_at_append:
  "list_all2 (tree_at st) ns as \<Longrightarrow> list_all2 (tree_at (st @ ext)) ns as"
  by (erule list_all2_mono) (rule tree_at_append)

lemma layout_tree_at:
  "\<forall>st. length st = base \<longrightarrow> layout base n = (a, cells) \<longrightarrow>
     tree_at (st @ cells) n a \<and> base \<le> a \<and> a < base + length cells"
  "\<forall>st. length st = base \<longrightarrow> layout_list base ns = (as, cells) \<longrightarrow>
     list_all2 (tree_at (st @ cells)) ns as \<and> list_all (\<lambda>a. base \<le> a \<and> a < base + length cells) as"
proof (induction base n and base ns arbitrary: a cells and as cells rule: layout_layout_list.induct)
  case (1 base t r cs)
  show ?case
  proof (intro allI impI)
    fix st :: store
    assume len: "length st = base" and lay: "layout base (Node t r cs) = (a, cells)"
    obtain as' cells' where l: "layout_list base cs = (as', cells')" by (cases "layout_list base cs")
    with lay have a: "a = base + length cells'"
      and cells: "cells = cells' @ [\<lparr>node_text = t, node_reference = r, node_children = as'\<rparr>]"
      by auto
    from "1.IH"[of as' cells'] len l have "list_all2 (tree_at (st @ cells')) cs as'" by simp
    then have "list_all2 (tree_at ((st @ cells') @ [\<lparr>node_text = t, node_reference = r, node_children = as'\<rparr>])) cs as'"
      by (rule list_all2_tree_at_append)
    moreover have "deref (st @ cells) a = Some \<lparr>node_text = t, node_reference = r, node_children = as'\<rparr>"
      using a cells len by (simp add: deref_def nth_append)
    ultimately show "tree_at (st @ cells) (Node t r cs) a \<and> base \<le> a \<and> a < base + length cells"
      using a cells by simp
  qed
next
  case (2 base)
  then show ?case by simp
next
  case (3 base c cs)
  show ?case
  proof (intro allI impI)
    fix st :: store
    assume len: "length st = base" and lay: "layout_list base (c # cs) = (as, cells)"
    obtain a1 cells1 where l1: "layout base c = (a1, cells1)" by (cases "layout base c")
    obtain as2 cells2 where l2: "layout_list (base + length cells1) cs = (as2, cells2)"
      by (cases "layout_list (base + length cells1) cs")
    from lay l1 l2 have as: "as = a1 # as2" and cells: "cells = cells1 @ cells2" by auto
    from "3.IH"(1)[of a1 cells1] len l1 have h1: "tree_at (st @ cells1) c a1" "base \<le> a1" "a1 < base + length cells1"
      by auto
    from "3.IH"(2)[OF l1[symmetric] refl, of as2 cells2, rule_format, of "st @ cells1"] len l2
    have h2: "list_all2 (tree_at ((st @ cells1) @ cells2)) cs as2"
      "list_all (\<lambda>a. base + length cells1 \<le> a \<and> a < base + length cells1 + length cells2) as2"
      by auto
    from h1(1) have "tree_at ((st @ cells1) @ cells2) c a1" by (rule tree_at_append)
    with h1 h2 as cells
    show "list_all2 (tree_at (st @ cells)) (c # cs) as \<and> list_all (\<lambda>a. base \<le> a \<and> a < base + length cells) as"
      by (auto simp: list_all_iff)
  qed
qed

lemma length_layout_list: "layout_list base ns = (as, cells) \<Longrightarrow> length as = length ns"
proof -
  assume l: "layout_list base ns = (as, cells)"
  obtain st :: store where "length st = base" using Ex_list_of_length by blast
  with layout_tree_at(2)[of base ns as cells] l have "list_all2 (tree_at (st @ cells)) ns as" by blast
  then show ?thesis by (simp add: list_all2_lengthD)
qed

lemma AddValue_loop_appends:
  "cur < length st \<Longrightarrow>
   AddValue_loop (Some cur) ns st = Inr (st[cur := (st ! cur)\<lparr>node_children := node_children (st ! cur) @ ns\<rparr>])"
proof (induction ns arbitrary: st)
  case Nil
  then show ?case by simp
next
  case (Cons n ns)
  let ?st' = "st[cur := (st ! cur)\<lparr>node_children := node_children (st ! cur) @ [n]\<rparr>]"
  from Cons.prems have "AddChild (Some cur) n st = Inr ?st'" by (simp add: AddChild_def deref_def)
  moreover from Cons.prems have "cur < length ?st'" by simp
  note Cons.IH[OF this]
  ultimately show ?case using Cons.prems by simp
qed


lemma new_nodes_tree_at:
  assumes "new_nodes ns st = (as, st')" and "length st0 = length st"
  shows "\<exists>cells. st' = st @ cells \<and> length as = length ns
           \<and> list_all2 (tree_at (st0 @ cells)) ns as
           \<and> list_all (\<lambda>a. length st \<le> a \<and> a < length st') as"
proof -
  obtain cells where l: "layout_list (length st) ns = (as, cells)" and st': "st' = st @ cells"
    using assms(1) by (auto simp: new_nodes_def split: prod.splits)
  from layout_tree_at(2)[of "length st" ns as cells, rule_format, of st0] l assms(2)
  have "list_all2 (tree_at (st0 @ cells)) ns as"
    "list_all (\<lambda>a. length st \<le> a \<and> a < length st + length cells) as"
    by auto
  with st' length_layout_list[OF l] show ?thesis by simp
qed

text \<open>
  Graft placement. For a fragment that decodes and a selected node, the add-value
  callback appends to the children of the selected node one new node for each tree that
  \<open>Tree.AddNode\<close> returns for the fragment, in their order, and the add-node callback
  appends exactly one new node, the wrapper with those trees as its children; both then
  set \<open>OriginRoot\<close> to the root of the tree view and return no error.
\<close>

theorem graft_placement:
  assumes "j \<noteq> []" and "Unmarshal j = Inr i"
    and "CurrentNode g = Some cur" and "deref (nodes_store g) cur = Some c"
  shows "(\<exists>g' kids.
            AddValue_done Unmarshal Tree_AddNode j g = Inr (None, g')
          \<and> deref (nodes_store g') cur = Some (c\<lparr>node_children := node_children c @ kids\<rparr>)
          \<and> length kids = length (Tree_AddNode i)
          \<and> list_all2 (tree_at (nodes_store g')) (Tree_AddNode i) kids
          \<and> list_all (\<lambda>k. length (nodes_store g) \<le> k) kids
          \<and> OriginRoot g' = Root g' \<and> Root g' = Root g)
       \<and> (\<exists>g' newNode.
            AddNode_done Unmarshal NewRootTreeNode Tree_AddNode j g = Inr (None, g')
          \<and> deref (nodes_store g') cur = Some (c\<lparr>node_children := node_children c @ [newNode]\<rparr>)
          \<and> length (nodes_store g) \<le> newNode
          \<and> tree_at (nodes_store g')
               (Node (fst (NewRootTreeNode i)) (snd (NewRootTreeNode i)) (Tree_AddNode i)) newNode
          \<and> OriginRoot g' = Root g' \<and> Root g' = Root g)"
proof
  let ?st = "nodes_store g"
  from assms(4) have cur: "cur < length ?st" and c: "?st ! cur = c"
    by (auto simp: deref_def split: if_splits)
  from assms(1,2) have dec: "UnMarshalJSON Unmarshal (Inr j) = Inr i"
    by (simp add: UnMarshalJSON_def)
  let ?c' = "\<lambda>ks. c\<lparr>node_children := node_children c @ ks\<rparr>"
  show "\<exists>g' kids.
            AddValue_done Unmarshal Tree_AddNode j g = Inr (None, g')
          \<and> deref (nodes_store g') cur = Some (c\<lparr>node_children := node_children c @ kids\<rparr>)
          \<and> length kids = length (Tree_AddNode i)
          \<and> list_all2 (tree_at (nodes_store g')) (Tree_AddNode i) kids
          \<and> list_all (\<lambda>k. length (nodes_store g) \<le> k) kids
          \<and> OriginRoot g' = Root g' \<and> Root g' = Root g"
  proof -
    obtain kids st1 where nn: "new_nodes (Tree_AddNode i) ?st = (kids, st1)"
      by (cases "new_nodes (Tree_AddNode i) ?st")
    from new_nodes_tree_at[OF nn, of "?st[cur := ?c' kids]"] obtain cells where
      cells: "st1 = ?st @ cells" "length kids = length (Tree_AddNode i)"
        "list_all2 (tree_at (?st[cur := ?c' kids] @ cells)) (Tree_AddNode i) kids"
        "list_all (\<lambda>a. length ?st \<le> a \<and> a < length st1) kids"
      by auto
    from cur cells(1) have cur1: "cur < length st1" by simp
    have st2: "st1[cur := (st1 ! cur)\<lparr>node_children := node_children (st1 ! cur) @ kids\<rparr>]
               = ?st[cur := ?c' kids] @ cells"
      using cur c cells(1) by (simp add: list_update_append1 nth_append)
    let ?g' = "g\<lparr>nodes_store := ?st[cur := ?c' kids] @ cells, OriginRoot := Root g\<rparr>"
    have "AddValue_done Unmarshal Tree_AddNode j g = Inr (None, ?g')"
      using assms(1,3) dec nn AddValue_loop_appends[OF cur1, of kids] st2
      by (simp add: AddValue_done_def)
    moreover have "deref (nodes_store ?g') cur = Some (?c' kids)"
      using cur by (simp add: deref_def nth_append)
    moreover have "list_all (\<lambda>k. length ?st \<le> k) kids"
      using cells(4) by (auto simp: list_all_iff)
    ultimately show ?thesis using cells(2,3) by auto
  qed
  show "\<exists>g' newNode.
            AddNode_done Unmarshal NewRootTreeNode Tree_AddNode j g = Inr (None, g')
          \<and> deref (nodes_store g') cur = Some (c\<lparr>node_children := node_children c @ [newNode]\<rparr>)
          \<and> length (nodes_store g) \<le> newNode
          \<and> tree_at (nodes_store g')
               (Node (fst (NewRootTreeNode i)) (snd (NewRootTreeNode i)) (Tree_AddNode i)) newNode
          \<and> OriginRoot g' = Root g' \<and> Root g' = Root g"
  proof -
    let ?n = "length ?st"
    let ?w = "\<lambda>ks. \<lparr>node_text = fst (NewRootTreeNode i), node_reference = snd (NewRootTreeNode i),
                  node_children = ks\<rparr>"
    let ?st1 = "?st @ [?w []]"
    obtain kids st2 where nn: "new_nodes (Tree_AddNode i) ?st1 = (kids, st2)"
      by (cases "new_nodes (Tree_AddNode i) ?st1")
    let ?base = "?st[cur := ?c' [?n]] @ [?w kids]"
    from new_nodes_tree_at[OF nn, of ?base] obtain cells where
      cells: "st2 = ?st1 @ cells" "list_all2 (tree_at (?base @ cells)) (Tree_AddNode i) kids"
      by auto
    have set: "SetChildren ?n kids st2 = Inr (?st @ [?w kids] @ cells)"
      using cells(1) by (simp add: SetChildren_def deref_def nth_append list_update_append)
    have add: "AddChild (Some cur) ?n (?st @ [?w kids] @ cells) = Inr (?base @ cells)"
      using cur c by (simp add: AddChild_def deref_def nth_append list_update_append1)
    let ?g' = "g\<lparr>nodes_store := ?base @ cells, OriginRoot := Root g\<rparr>"
    have f1: "AddNode_done Unmarshal NewRootTreeNode Tree_AddNode j g = Inr (None, ?g')"
      using assms(1,3) dec nn set add by (simp add: AddNode_done_def)
    have f2: "deref (nodes_store ?g') cur = Some (?c' [?n])"
      using cur by (simp add: deref_def nth_append)
    have "deref (?base @ cells) ?n = Some (?w kids)"
      by (simp add: deref_def nth_append)
    with cells(2) have f3: "tree_at (nodes_store ?g')
        (Node (fst (NewRootTreeNode i)) (snd (NewRootTreeNode i)) (Tree_AddNode i)) ?n"
      by simp
    show ?thesis
      by (rule exI[of _ ?g'], rule exI[of _ ?n]) (use f1 f2 f3 in \<open>simp del: tree_at.simps\<close>)
  qed
qed

text \<open>Grafting the fragment \<open>{"x":1,"y":2}\<close> under the root of the example state:
  add-value appends the two Key nodes \<open>x\<close> and \<open>y\<close>, add-node one wrapper node.\<close>

theorem graft_placement_witness:
  "''{\"x\":1,\"y\":2}'' \<noteq> []
   \<and> example_Unmarshal ''{\"x\":1,\"y\":2}'' = Inr (JObject [(''x'', JScalar (SInt 1)), (''y'', JScalar (SInt 2))])
   \<and> CurrentNode example_gui = Some 6
   \<and> deref (nodes_store example_gui) 6 =
        Some \<lparr>node_text = [], node_reference = \<lparr>JSONType = Object, ValueType = None\<rparr>, node_children = [1, 5]\<rparr>
   \<and> (\<exists>g' kids.
          AddValue_done example_Unmarshal (buildTopLevelChildren (\<lambda>x. [])) ''{\"x\":1,\"y\":2}'' example_gui = Inr (None, g')
        \<and> deref (nodes_store g') 6 =
             Some \<lparr>node_text = [], node_reference = \<lparr>JSONType = Object, ValueType = None\<rparr>,
                   node_children = [1, 5] @ kids\<rparr>
        \<and> length kids = 2
        \<and> list_all2 (tree_at (nodes_store g'))
             [Node ''x'' \<lparr>JSONType = Key, ValueType = None\<rparr> [Node ''1'' \<lparr>JSONType = Value, ValueType = Some Int'\<rparr> []],
              Node ''y'' \<lparr>JSONType = Key, ValueType = None\<rparr> [Node ''2'' \<lparr>JSONType = Value, ValueType = Some Int'\<rparr> []]]
             kids
        \<and> OriginRoot g' = Root g')
   \<and> (\<exists>g' newNode.
          AddNode_done example_Unmarshal (\<lambda>i. ([], \<lparr>JSONType = Object, ValueType = None\<rparr>))
            (buildTopLevelChildren (\<lambda>x. [])) ''{\"x\":1,\"y\":2}'' example_gui = Inr (None, g')
        \<and> deref (nodes_store g') 6 =
             Some \<lparr>node_text = [], node_reference = \<lparr>JSONType = Object, ValueType = None\<rparr>,
                   node_children = [1, 5] @ [newNode]\<rparr>
        \<and> OriginRoot g' = Root g')"
proof -
  let ?j = "''{\"x\":1,\"y\":2}''"
  let ?i = "JObject [(''x'', JScalar (SInt 1)), (''y'', JScalar (SInt 2))] :: unit json"
  let ?c = "\<lparr>node_text = [], node_reference = \<lparr>JSONType = Object, ValueType = None\<rparr>, node_children = [1, 5]\<rparr>"
  have h1: "?j \<noteq> []" by simp
  have h2: "example_Unmarshal ?j = Inr ?i" by (simp add: example_Unmarshal_def)
  have h3: "CurrentNode example_gui = Some 6" by (simp add: example_gui_def)
  have h4: "deref (nodes_store example_gui) 6 = Some ?c" by (simp add: example_gui_def deref_def)
  have s1: "show_int 1 = ''1''" and s2: "show_int 2 = ''2''" by code_simp+
  have b: "buildTopLevelChildren (\<lambda>x. []) ?i =
             [Node ''x'' \<lparr>JSONType = Key, ValueType = None\<rparr> [Node ''1'' \<lparr>JSONType = Value, ValueType = Some Int'\<rparr> []],
              Node ''y'' \<lparr>JSONType = Key, ValueType = None\<rparr> [Node ''2'' \<lparr>JSONType = Value, ValueType = Some Int'\<rparr> []]]"
    by (simp add: buildTopLevelChildren_def classify_def s1 s2)
  from graft_placement[where Unmarshal = example_Unmarshal and j = ?j and i = ?i and g = example_gui
         and Tree_AddNode = "buildTopLevelChildren (\<lambda>x. [])"
         and NewRootTreeNode = "\<lambda>i. ([], \<lparr>JSONType = Object, ValueType = None\<rparr>)", OF h1 h2 h3 h4]
  have "(\<exists>g' kids.
          AddValue_done example_Unmarshal (buildTopLevelChildren (\<lambda>x. [])) ?j example_gui = Inr (None, g')
        \<and> deref (nodes_store g') 6 = Some (?c\<lparr>node_children := node_children ?c @ kids\<rparr>)
        \<and> length kids = length (buildTopLevelChildren (\<lambda>x. []) ?i)
        \<and> list_all2 (tree_at (nodes_store g')) (buildTopLevelChildren (\<lambda>x. []) ?i) kids
        \<and> OriginRoot g' = Root g')
   \<and> (\<exists>g' newNode.
          AddNode_done example_Unmarshal (\<lambda>i. ([], \<lparr>JSONType = Object, ValueType = None\<rparr>))
            (buildTopLevelChildren (\<lambda>x. [])) ?j example_gui = Inr (None, g')
        \<and> deref (nodes_store g') 6 = Some (?c\<lparr>node_children := node_children ?c @ [newNode]\<rparr>)
        \<and> OriginRoot g' = Root g')"
    by blast
  then show ?thesis using h1 h2 h3 h4 unfolding b by (simp del: tree_at.simps add: numeral_2_eq_2)
qed

text \<open>
  Claim C8: grafting by add-value attaches each top-level subtree of the fragment as a new
  child of the selected node, grafting by add-node attaches one new wrapper child, and
  in both cases the Origin Snapshot is then the new full root. The placement is as
  claimed (\<open>graft_placement\<close>). The snapshot is set to the root of the tree view, and
  under an active filter that is the filtered copy: after the filter \<open>gam\<close> on the example
  state the root of the tree view is the new node 7 with the one child \<open>gamma\<close>, while
  \<open>OriginRoot\<close> still points to node 6 with the children \<open>alpha\<close> and \<open>beta\<close>; a graft under
  \<open>gamma\<close> by either callback then makes \<open>OriginRoot\<close> point to node 7, and a filter call
  with the empty text shows \<open>gamma\<close> alone.
\<close>

theorem graft_under_filter_snapshot:
  "(case Search_changed ''gam'' example_gui of
      Some (Inr g1) \<Rightarrow>
        Root g1 = Some 7 \<and> OriginRoot g1 = Some 6
      \<and> map node_children (nodes_store g1) ! 6 = [1, 5]
      \<and> map node_children (nodes_store g1) ! 7 = [3]
      \<and> (case AddValue_done example_Unmarshal (buildTopLevelChildren (\<lambda>x. [])) ''{\"x\":1,\"y\":2}''
                (g1\<lparr>CurrentNode := Some 3\<rparr>) of
           Inr (None, g2) \<Rightarrow>
             OriginRoot g2 = Some 7
           \<and> map node_children (nodes_store g2) ! 7 = [3]
           \<and> map node_children (nodes_store g2) ! 3 = [2, 9, 11]
           \<and> (case Search_changed [] g2 of
                  Some (Inr g3) \<Rightarrow> Root g3 = Some 12 \<and> map node_children (nodes_store g3) ! 12 = [3]
                | _ \<Rightarrow> False)
         | _ \<Rightarrow> False)
      \<and> (case AddNode_done example_Unmarshal (\<lambda>i. ([], \<lparr>JSONType = Object, ValueType = None\<rparr>))
                (buildTopLevelChildren (\<lambda>x. [])) ''{\"x\":1,\"y\":2}'' (g1\<lparr>CurrentNode := Some 3\<rparr>) of
           Inr (None, g2) \<Rightarrow>
             OriginRoot g2 = Some 7
           \<and> map node_children (nodes_store g2) ! 7 = [3]
           \<and> map node_children (nodes_store g2) ! 3 = [2, 8]
         | _ \<Rightarrow> False)
    | _ \<Rightarrow> False)"
  by code_simp

text \<open>
  Claim C7: decoding an empty input fails with \<open>ErrEmptyJSON\<close>; decoding bytes that
  \<open>json.Unmarshal\<close> rejects fails with its error; and when decoding the input fails, the
  add-node, add-value and load callbacks return that error and leave the \<open>Gui\<close>, and so
  the tree, as it was.
\<close>

theorem decode_failure_leaves_tree:
  "UnMarshalJSON Unmarshal (Inr []) = Inl ErrEmptyJSON
   \<and> (b \<noteq> [] \<and> Unmarshal b = Inl e \<longrightarrow> UnMarshalJSON Unmarshal (Inr b) = Inl e)
   \<and> (UnMarshalJSON Unmarshal (Inr b) = Inl e \<longrightarrow>
        AddNode_done Unmarshal NewRootTreeNode Tree_AddNode b g = Inr (Some e, g)
      \<and> AddValue_done Unmarshal Tree_AddNode b g = Inr (Some e, g)
      \<and> (Open fileName = Inr (Inr b) \<longrightarrow>
           LoadJSON_done Open Unmarshal UpdateView fileName g = (Some e, g)))"
  by (auto simp: UnMarshalJSON_def AddNode_done_def AddValue_done_def LoadJSON_done_def
      split: sum.splits if_splits)

text \<open>The bytes \<open>{invalid\<close> and the empty input on the example state.\<close>

theorem decode_failure_leaves_tree_witness:
  "UnMarshalJSON example_Unmarshal (Inr []) = Inl ErrEmptyJSON
   \<and> ''{invalid'' \<noteq> [] \<and> example_Unmarshal ''{invalid'' = Inl JSONError
   \<and> UnMarshalJSON example_Unmarshal (Inr ''{invalid'') = Inl JSONError
   \<and> AddNode_done example_Unmarshal (\<lambda>i. ([], \<lparr>JSONType = Object, ValueType = None\<rparr>))
        (buildTopLevelChildren (\<lambda>x. [])) ''{invalid'' example_gui = Inr (Some JSONError, example_gui)
   \<and> AddValue_done example_Unmarshal (buildTopLevelChildren (\<lambda>x. [])) ''{invalid'' example_gui
        = Inr (Some JSONError, example_gui)
   \<and> LoadJSON_done (\<lambda>f. Inr (Inr ''{invalid'')) example_Unmarshal (\<lambda>i g. g\<lparr>Root := None\<rparr>) ''a.json'' example_gui
        = (Some JSONError, example_gui)
   \<and> AddNode_done example_Unmarshal (\<lambda>i. ([], \<lparr>JSONType = Object, ValueType = None\<rparr>))
        (buildTopLevelChildren (\<lambda>x. [])) [] example_gui = Inr (Some ErrEmptyJSON, example_gui)
   \<and> LoadJSON_done (\<lambda>f. Inr (Inr [])) example_Unmarshal (\<lambda>i g. g\<lparr>Root := None\<rparr>) ''a.json'' example_gui
        = (Some ErrEmptyJSON, example_gui)"
proof -
  have h1: "''{invalid'' \<noteq> [] \<and> example_Unmarshal ''{invalid'' = Inl JSONError"
    by (simp add: example_Unmarshal_def)
  have h2: "(\<lambda>f :: string. (Inr (Inr ''{invalid'') :: error + reader)) ''a.json'' = Inr (Inr ''{invalid'')" by simp
  have h3: "(\<lambda>f :: string. (Inr (Inr []) :: error + reader)) ''a.json'' = Inr (Inr [])" by simp
  from decode_failure_leaves_tree[of example_Unmarshal "''{invalid''" JSONError
         "\<lambda>i. ([], \<lparr>JSONType = Object, ValueType = None\<rparr>)" "buildTopLevelChildren (\<lambda>x. [])" example_gui
         "\<lambda>f. Inr (Inr ''{invalid'')" "''a.json''" "\<lambda>i g. g\<lparr>Root := None\<rparr>"]
       decode_failure_leaves_tree[of example_Unmarshal "[]" ErrEmptyJSON
         "\<lambda>i. ([], \<lparr>JSONType = Object, ValueType = None\<rparr>)" "buildTopLevelChildren (\<lambda>x. [])" example_gui
         "\<lambda>f. Inr (Inr [])" "''a.json''" "\<lambda>i g. g\<lparr>Root := None\<rparr>"]
       h1
  show ?thesis by simp
qed

end
